theory Spec2Isabelle
  imports Complex_Main "HOL-Library.Multiset"
begin

section \<open>Seismic navigation QC: a shallow embedding of the validation and aggregation core\<close>

text \<open>
  The Python sources are modelled function by function. Python's unbounded integers are
  \<open>int\<close>, its strings are \<open>string\<close> (ASCII only), its lists are lists, and every
  exception the modelled code can raise is a value of \<open>py_error\<close> returned on the left of
  a sum.
\<close>

datatype py_error = KeyError | TypeError | ValueError | IndexError

subsection \<open>Python string helpers\<close>

text \<open>\<open>str(n)\<close> for a Python integer: decimal digits, a leading minus sign when negative.\<close>

definition digit_char :: "nat \<Rightarrow> char" where
  "digit_char d = ''0123456789'' ! (d mod 10)"

fun str_nat :: "nat \<Rightarrow> string" where
  "str_nat n = (if n < 10 then [digit_char n] else str_nat (n div 10) @ [digit_char (n mod 10)])"

declare str_nat.simps [simp del]

definition str_int :: "int \<Rightarrow> string" where
  "str_int i = (if i < 0 then CHR ''-'' # str_nat (nat (- i)) else str_nat (nat i))"

text \<open>\<open>sep.join(parts)\<close>.\<close>

fun join :: "string \<Rightarrow> string list \<Rightarrow> string" where
  "join sep [] = []"
| "join sep [x] = x"
| "join sep (x # y # ys) = x @ sep @ join sep (y # ys)"

subsection \<open>Range compaction: \<open>LineLogManager.detect_range\<close> (line_log_manager.py)\<close>

text \<open>
  The two places where the source appends a range to \<open>ranges\<close>: a bare number when
  \<open>start == end\<close>, otherwise \<open>start-end\<close>.
\<close>

definition render_range :: "int \<Rightarrow> int \<Rightarrow> string" where
  "render_range start end = (if start = end then str_int start
                             else str_int start @ ''-'' @ str_int end)"

text \<open>
  The \<open>for i in range(1, len(sorted_points))\<close> loop; the state is
  \<open>(ranges, start, end)\<close> and the first argument is \<open>sorted_points[1:]\<close>.
\<close>

fun range_loop :: "int list \<Rightarrow> string list \<times> int \<times> int \<Rightarrow> string list \<times> int \<times> int" where
  "range_loop [] st = st"
| "range_loop (current # rest) (ranges, start, end) =
     (if current = end + 2 then range_loop rest (ranges, start, current)
      else range_loop rest (ranges @ [render_range start end], current, current))"

definition detect_range :: "int list \<Rightarrow> string" where
  "detect_range shot_points =
     (if shot_points = [] then ''''
      else
        let sorted_points = sort shot_points;
            (ranges, start, end) =
               range_loop (tl sorted_points) ([], hd sorted_points, hd sorted_points);
            ranges = ranges @ [render_range start end];
            total_count = int (length sorted_points);
            range_str = join '', '' ranges
        in ''Total '' @ str_int total_count @ '' SP. '' @ range_str)"





subsection \<open>The Table: a pandas DataFrame with typed columns\<close>

text \<open>
  A DataFrame is an ordered list of column names and an ordered list of rows. Columns are
  typed, as pandas columns are: \<open>shot_point\<close> is the nullable integer column the
  importers produce (\<open>Int64\<close>, \<open>None\<close> for \<open>pd.NA\<close>), \<open>point_code\<close> is a
  nullable string column, and every other column the modelled code reads or writes is
  numeric: an integer, a float (modelled as an exact rational), or \<open>Null\<close> for NaN.
  A column that is not in \<open>columns\<close> reads as \<open>Null\<close> in every row, which is what
  pandas leaves behind when \<open>df.loc[mask, col] = v\<close> creates a column.
\<close>

datatype cell = Null | IntV int | NumV rat

record row =
  shot_point :: "int option"
  point_code :: "string option"
  vals :: "string \<Rightarrow> cell"

record df =
  columns :: "string list"
  rows :: "row list"

definition has_column :: "df \<Rightarrow> string \<Rightarrow> bool" where
  "has_column d c = (c \<in> set (columns d))"

text \<open>\<open>len(df)\<close>.\<close>

definition len_df :: "df \<Rightarrow> nat" where
  "len_df d = length (rows d)"

subsection \<open>Python \<open>range\<close>\<close>

text \<open>
  \<open>range(a, b, s)\<close> as a list. Every call in the modelled code passes a non-zero literal
  step (\<open>range\<close> raises on a zero step, which gives the empty list here).
\<close>

function py_range :: "int \<Rightarrow> int \<Rightarrow> int \<Rightarrow> int list" where
  "py_range a b s =
     (if 0 < s \<and> a < b then a # py_range (a + s) b s
      else if s < 0 \<and> b < a then a # py_range (a + s) b s
      else [])"
  by pat_completeness auto
termination
  by (relation "measure (\<lambda>(a, b, s). if 0 < s then nat (b - a) else nat (a - b))") auto

declare py_range.simps [simp del]

subsection \<open>Missing shot points: \<open>check_sp\<close> (PXGEONavQCTools.py)\<close>

text \<open>
  \<open>sorted(column.tolist())\<close>: a \<open>pd.NA\<close> in a list of two or more values makes the
  comparison raise \<open>TypeError\<close> (each element of such a list is compared at least once);
  a list of at most one element is returned as it is.
\<close>

definition non_null_shot_points :: "df \<Rightarrow> int list" where
  "non_null_shot_points d = List.map_filter shot_point (rows d)"

definition sorted_shot_points :: "df \<Rightarrow> py_error + int list" where
  "sorted_shot_points d =
     (let col = map shot_point (rows d)
      in if 2 \<le> length col \<and> None \<in> set col then Inl TypeError
         else Inr (sort (non_null_shot_points d)))"

text \<open>
  The loop \<open>for i in range(len(shot_points) - 1)\<close> of \<open>check_sp\<close>; the result is
  \<open>missed_sp\<close>, extended pair by pair. A single \<open>pd.NA\<close> never reaches the loop body.
\<close>

fun check_sp_loop :: "int list \<Rightarrow> int list" where
  "check_sp_loop (current # next # rest) =
     (let diff = next - current;
          missed = (if abs diff > 2
                    then (if diff > 0 then py_range (current + 2) next 2
                          else py_range (current - 2) next (- 2))
                    else [])
      in missed @ check_sp_loop (next # rest))"
| "check_sp_loop _ = []"

definition check_sp :: "df \<Rightarrow> py_error + int list" where
  "check_sp merged_df =
     (if \<not> has_column merged_df ''shot_point'' then Inl KeyError
      else case sorted_shot_points merged_df of
             Inl e \<Rightarrow> Inl e
           | Inr shot_points \<Rightarrow> Inr (check_sp_loop shot_points))"

subsection \<open>Missing shot points: \<open>QCValidator.check_missing_shot_points\<close> (qc_validator.py)\<close>

fun check_missing_loop :: "int list \<Rightarrow> int list" where
  "check_missing_loop (current # next # rest) =
     (if next - current > 1 then py_range (current + 1) next 1 else [])
       @ check_missing_loop (next # rest)"
| "check_missing_loop _ = []"

definition check_missing_shot_points :: "df \<Rightarrow> py_error + int list" where
  "check_missing_shot_points d =
     (if \<not> has_column d ''shot_point'' then Inr []
      else case sorted_shot_points d of
             Inl e \<Rightarrow> Inl e
           | Inr shot_points \<Rightarrow> Inr (check_missing_loop shot_points))"

text \<open>
  The specification's wording of the detection: the adjacent pairs of the sorted shot points,
  and for a pair the values between its ends that lie on the step cadence counted from the
  first end.
\<close>

definition adjacent_pairs :: "int list \<Rightarrow> (int \<times> int) list" where
  "adjacent_pairs xs = zip xs (tl xs)"

definition spec_missing_between :: "int \<Rightarrow> int \<times> int \<Rightarrow> int list" where
  "spec_missing_between step p = [m \<leftarrow> [fst p + 1 .. snd p - 1]. (m - fst p) mod step = 0]"

text \<open>A Table holding just a shot-point column, for the worked scenarios.\<close>

definition sp_row :: "int \<Rightarrow> row" where
  "sp_row n = \<lparr>shot_point = Some n, point_code = None, vals = (\<lambda>c. Null)\<rparr>"

definition sp_table :: "int list \<Rightarrow> df" where
  "sp_table sps = \<lparr>columns = [''shot_point''], rows = map sp_row sps\<rparr>"

subsection \<open>Numeric reading of a cell\<close>

definition cell_num :: "cell \<Rightarrow> rat option" where
  "cell_num c = (case c of Null \<Rightarrow> None | IntV i \<Rightarrow> Some (of_int i) | NumV r \<Rightarrow> Some r)"

text \<open>\<open>series.fillna(0)\<close>, cell by cell.\<close>

definition fillna0 :: "cell \<Rightarrow> rat" where
  "fillna0 c = (case cell_num c of None \<Rightarrow> 0 | Some r \<Rightarrow> r)"

text \<open>\<open>series == v\<close>, \<open>series < v\<close> and \<open>series > v\<close>, cell by cell: a comparison
  with NaN is false.\<close>

definition cell_eq :: "cell \<Rightarrow> rat \<Rightarrow> bool" where
  "cell_eq c v = (case cell_num c of None \<Rightarrow> False | Some r \<Rightarrow> r = v)"

definition cell_lt :: "cell \<Rightarrow> rat \<Rightarrow> bool" where
  "cell_lt c v = (case cell_num c of None \<Rightarrow> False | Some r \<Rightarrow> r < v)"

definition cell_gt :: "cell \<Rightarrow> rat \<Rightarrow> bool" where
  "cell_gt c v = (case cell_num c of None \<Rightarrow> False | Some r \<Rightarrow> r > v)"

subsection \<open>Shot-point order scan: \<open>QCReportGenerator.detect_sp_sorting\<close> (qc_report_generator.py)\<close>

text \<open>The first loop: the non-zero differences among the first
  \<open>min(5, len(shot_points) - 1)\<close> adjacent pairs.\<close>

definition first_differences :: "int list \<Rightarrow> int list" where
  "first_differences shot_points =
     [diff \<leftarrow> map (\<lambda>i. shot_points ! (i + 1) - shot_points ! i)
                   [0 ..< min 5 (length shot_points - 1)]. diff \<noteq> 0]"

text \<open>The second loop, over the adjacent pairs in row order; the state is
  \<open>(issues, seen_sps)\<close>.\<close>

fun sorting_scan :: "bool \<Rightarrow> int \<Rightarrow> int list \<Rightarrow> string list \<times> int set \<Rightarrow> string list \<times> int set" where
  "sorting_scan ascending max_allowed_gap (current_sp # next_sp # rest) (issues, seen_sps) =
     sorting_scan ascending max_allowed_gap (next_sp # rest)
       (if next_sp = current_sp then
          (if current_sp \<notin> seen_sps
           then (issues @ [''Duplicate SP '' @ str_int current_sp @ '' detected''],
                 insert current_sp seen_sps)
           else (issues, seen_sps))
        else if ascending then
          (if next_sp < current_sp
           then (issues @ [''SP '' @ str_int next_sp @ '' appears after SP '' @ str_int current_sp
                             @ '' (should be ascending)''], seen_sps)
           else if next_sp - current_sp > max_allowed_gap
           then (issues @ [''Large gap detected: SP '' @ str_int current_sp @ '' to ''
                             @ str_int next_sp @ '' (gap: '' @ str_int (next_sp - current_sp) @ '')''],
                 seen_sps)
           else (issues, seen_sps))
        else
          (if next_sp > current_sp
           then (issues @ [''SP '' @ str_int next_sp @ '' appears after SP '' @ str_int current_sp
                             @ '' (should be descending)''], seen_sps)
           else if current_sp - next_sp > max_allowed_gap
           then (issues @ [''Large gap detected: SP '' @ str_int current_sp @ '' to ''
                             @ str_int next_sp @ '' (gap: '' @ str_int (current_sp - next_sp) @ '')''],
                 seen_sps)
           else (issues, seen_sps)))"
| "sorting_scan ascending max_allowed_gap _ st = st"

definition detect_sp_sorting :: "df \<Rightarrow> string list" where
  "detect_sp_sorting d =
     (let issues = [] in
      if has_column d ''shot_point'' \<and> len_df d > 2 then
        let shot_points = non_null_shot_points d in
        if length shot_points < 3 then issues
        else
          let differences = first_differences shot_points in
          if differences = [] then issues
          else
            let ascending = (length [x \<leftarrow> differences. x > 0] \<ge> length [x \<leftarrow> differences. x < 0]);
                abs_differences = [abs x. x \<leftarrow> differences, x \<noteq> 0];
                max_allowed_gap = (if abs_differences \<noteq> [] then Min (set abs_differences) * 3 else 6)
            in fst (sorting_scan ascending max_allowed_gap shot_points (issues, {}))
      else issues)"

subsection \<open>Percentages: \<open>QCReportGenerator.calculate_percentages\<close> (qc_report_generator.py)\<close>

text \<open>
  The percentages are numpy floats. They are modelled as exact rationals, with the values
  numpy returns for a division by zero (a warning, not an exception) made explicit.
\<close>

datatype fval = Fin rat | PosInf | NegInf | NaN

definition np_div :: "rat \<Rightarrow> int \<Rightarrow> fval" where
  "np_div n d = (if d = 0 then (if n = 0 then NaN else if n > 0 then PosInf else NegInf)
                 else Fin (n / of_int d))"

definition times100 :: "fval \<Rightarrow> fval" where
  "times100 x = (case x of Fin r \<Rightarrow> Fin (r * 100) | _ \<Rightarrow> x)"

definition flag_columns :: "string list" where
  "flag_columns = [''sti_flag'', ''sub_array_sep_flag'', ''cos_sep_flag'', ''volume_flag'',
                   ''gun_depth_flag'', ''gun_pressure_flag'', ''gun_timing_flag'',
                   ''repeatability_flag'', ''sma_flag'']"

text \<open>One entry of the returned dictionary: the keys \<open>total\<close>, \<open>errors\<close>,
  \<open>warnings\<close>, \<open>total_count\<close>, \<open>error_count\<close> and \<open>warning_count\<close>.\<close>

record stats =
  total_pct :: fval
  errors_pct :: fval
  warnings_pct :: fval
  total_count :: rat
  error_count :: rat
  warning_count :: rat

record percentages =
  per_flag :: "(string \<times> stats) list"
  percent_radial :: fval
  percent_gd_errors :: fval
  overall :: stats

text \<open>\<open>(series.fillna(0) > 0).sum()\<close>, \<open>(series == v).sum()\<close> and \<open>series.sum()\<close>
  (which skips NaN) for the column \<open>flag\<close> of a list of rows.\<close>

definition count_flagged :: "row list \<Rightarrow> string \<Rightarrow> rat" where
  "count_flagged rs flag = of_nat (length [r \<leftarrow> rs. fillna0 (vals r flag) > 0])"

definition count_equal :: "row list \<Rightarrow> string \<Rightarrow> rat \<Rightarrow> rat" where
  "count_equal rs flag v = of_nat (length [r \<leftarrow> rs. cell_eq (vals r flag) v])"

definition column_sum :: "row list \<Rightarrow> string \<Rightarrow> rat" where
  "column_sum rs flag = sum_list (map (\<lambda>r. fillna0 (vals r flag)) rs)"

text \<open>The body of the loop \<open>for flag in flag_columns\<close>.\<close>

definition flag_stats :: "df \<Rightarrow> int \<Rightarrow> string \<Rightarrow> stats" where
  "flag_stats production_df total_sp flag =
     (let flagged_records = count_flagged (rows production_df) flag;
          error_records = count_equal (rows production_df) flag 2;
          warning_records = count_equal (rows production_df) flag 1
      in \<lparr>total_pct = times100 (np_div flagged_records total_sp),
          errors_pct = times100 (np_div error_records total_sp),
          warnings_pct = times100 (np_div warning_records total_sp),
          total_count = flagged_records,
          error_count = error_records,
          warning_count = warning_records\<rparr>)"

text \<open>The boolean mask \<open>(df['shot_point'] >= min_sp) & (df['shot_point'] <= max_sp)\<close>:
  a null shot point is not selected.\<close>

definition in_production :: "int \<Rightarrow> int \<Rightarrow> row \<Rightarrow> bool" where
  "in_production min_sp max_sp r =
     (case shot_point r of None \<Rightarrow> False | Some sp \<Rightarrow> min_sp \<le> sp \<and> sp \<le> max_sp)"

text \<open>The first block: the production Table and the denominator \<open>total_sp\<close>.\<close>

definition production_filter :: "df \<Rightarrow> int option \<Rightarrow> int option \<Rightarrow> int option \<Rightarrow> py_error + df \<times> int" where
  "production_filter d total_sp fgsp lgsp =
     (case (fgsp, lgsp) of
        (Some f, Some l) \<Rightarrow>
          if \<not> has_column d ''shot_point'' then Inl KeyError
          else let min_sp = min f l; max_sp = max f l;
                   production_df = d\<lparr>rows := filter (in_production min_sp max_sp) (rows d)\<rparr>
               in Inr (production_df, int (len_df production_df))
      | _ \<Rightarrow> Inr (d, case total_sp of None \<Rightarrow> int (len_df d) | Some n \<Rightarrow> n))"

definition calculate_percentages :: "df \<Rightarrow> int option \<Rightarrow> int option \<Rightarrow> int option \<Rightarrow> py_error + percentages" where
  "calculate_percentages d total_sp_arg fgsp lgsp =
     (case production_filter d total_sp_arg fgsp lgsp of
        Inl e \<Rightarrow> Inl e
      | Inr (production_df, total_sp) \<Rightarrow>
          let percentages = [(flag, flag_stats production_df total_sp flag).
                               flag \<leftarrow> flag_columns, has_column production_df flag];
              percent_radial = (case map_of percentages ''repeatability_flag'' of
                                  Some s \<Rightarrow> total_pct s | None \<Rightarrow> Fin 0);
              percent_gd_errors = (case map_of percentages ''gun_depth_flag'' of
                                     Some s \<Rightarrow> total_pct s | None \<Rightarrow> Fin 0)
          in if \<not> (\<forall>flag \<in> set flag_columns. has_column d flag) then Inl KeyError
             else
               let total_flags = sum_list (map (column_sum (rows d)) flag_columns);
                   total_errors = sum_list (map (\<lambda>flag. count_equal (rows d) flag 2) flag_columns);
                   total_warnings = sum_list (map (\<lambda>flag. count_equal (rows d) flag 1) flag_columns);
                   denom = total_sp * int (length flag_columns)
               in Inr \<lparr>per_flag = percentages,
                       percent_radial = percent_radial,
                       percent_gd_errors = percent_gd_errors,
                       overall = \<lparr>total_pct = times100 (np_div total_flags denom),
                                  errors_pct = times100 (np_div total_errors denom),
                                  warnings_pct = times100 (np_div total_warnings denom),
                                  total_count = total_flags,
                                  error_count = total_errors,
                                  warning_count = total_warnings\<rparr>\<rparr>)"

text \<open>
  The claimed aggregate, in the specification's words: the flattened sum over all flag
  columns of the production rows.
\<close>

definition spec_overall_total_count :: "df \<Rightarrow> int \<Rightarrow> int \<Rightarrow> rat" where
  "spec_overall_total_count d fgsp lgsp =
     sum_list (map (column_sum (filter (in_production (min fgsp lgsp) (max fgsp lgsp)) (rows d)))
                   flag_columns)"

text \<open>A flagged Table of two rows: shot point 1 (outside the production range used below)
  carries an STI error, shot point 100 carries no flag.\<close>

definition flagged_row :: "int \<Rightarrow> (string \<times> int) list \<Rightarrow> row" where
  "flagged_row sp flags =
     \<lparr>shot_point = Some sp, point_code = None,
      vals = (\<lambda>c. case map_of flags c of Some v \<Rightarrow> IntV v
                   | None \<Rightarrow> if c \<in> set flag_columns then IntV 0 else Null)\<rparr>"

definition approach_error_table :: df where
  "approach_error_table =
     \<lparr>columns = ''shot_point'' # flag_columns,
      rows = [flagged_row 1 [(''sti_flag'', 2)], flagged_row 100 []]\<rparr>"

subsection \<open>More Python string operations (ASCII)\<close>

text \<open>\<open>s.startswith(p)\<close>, \<open>s.endswith(p)\<close> and \<open>p in s\<close>.\<close>

fun startswith :: "string \<Rightarrow> string \<Rightarrow> bool" where
  "startswith s [] = True"
| "startswith [] (p # ps) = False"
| "startswith (c # cs) (p # ps) = (c = p \<and> startswith cs ps)"

definition endswith :: "string \<Rightarrow> string \<Rightarrow> bool" where
  "endswith s p = startswith (rev s) (rev p)"

fun contains :: "string \<Rightarrow> string \<Rightarrow> bool" where
  "contains [] p = (p = [])"
| "contains (c # cs) p = (startswith (c # cs) p \<or> contains cs p)"







text \<open>
  \<open>int(s)\<close> for a string: surrounding white space is stripped, one sign is allowed, and
  the rest is decimal digits, single underscores allowed between two digits. \<open>None\<close>
  stands for \<open>ValueError\<close>.
\<close>

definition is_digit :: "char \<Rightarrow> bool" where
  "is_digit c = (c \<in> set ''0123456789'')"





subsection \<open>Production filtering of log entries: \<open>LineLogManager._filter_log_data_by_range\<close>\<close>









subsection \<open>Threshold rules: \<open>QCValidator\<close> (qc_validator.py)\<close>

text \<open>
  The fields of \<open>QCThresholds\<close> that the flagging rules read (the remaining fields only
  feed log messages). The floats are exact rationals here.
\<close>

record thresholds =
  sti_error :: rat
  sub_array_sep_min :: rat
  sub_array_sep_max :: rat
  dual_cos_min :: rat
  dual_cos_max :: rat
  triple_cos_min :: rat
  triple_cos_max :: rat
  volume_nominal :: rat
  gun_depth_min :: rat
  gun_depth_max :: rat
  gun_pressure_min :: rat
  gun_pressure_max :: rat
  timing_warning :: rat
  timing_error :: rat
  radial_limit :: rat
  sma_limit :: rat

text \<open>The fallback values of \<open>_load_thresholds\<close>.\<close>

definition default_thresholds :: thresholds where
  "default_thresholds =
     \<lparr>sti_error = 6, sub_array_sep_min = 68 / 10, sub_array_sep_max = 92 / 10,
      dual_cos_min = 3375 / 100, dual_cos_max = 4125 / 100,
      triple_cos_min = 3375 / 100, triple_cos_max = 4125 / 100,
      volume_nominal = 3040, gun_depth_min = - 8, gun_depth_max = - 6,
      gun_pressure_min = 1900, gun_pressure_max = 2100,
      timing_warning = 1, timing_error = 15 / 10, radial_limit = 10, sma_limit = 3\<rparr>"

text \<open>\<open>df[col] = v\<close>: the column is created at the end when it does not exist, and every
  row gets the value.\<close>

definition add_column :: "string \<Rightarrow> string list \<Rightarrow> string list" where
  "add_column col cols = (if col \<in> set cols then cols else cols @ [col])"

definition assign_column :: "df \<Rightarrow> string \<Rightarrow> (row \<Rightarrow> cell) \<Rightarrow> df" where
  "assign_column d col v =
     \<lparr>columns = add_column col (columns d),
      rows = map (\<lambda>r. r\<lparr>vals := (vals r)(col := v r)\<rparr>) (rows d)\<rparr>"

text \<open>\<open>df.loc[mask, col] = v\<close>: the rows selected by the mask get the value, the others
  keep theirs (NaN when the column is created by the assignment).\<close>

definition assign_where :: "df \<Rightarrow> (row \<Rightarrow> bool) \<Rightarrow> string \<Rightarrow> (row \<Rightarrow> cell) \<Rightarrow> df" where
  "assign_where d selected col v =
     \<lparr>columns = add_column col (columns d),
      rows = map (\<lambda>r. if selected r then r\<lparr>vals := (vals r)(col := v r)\<rparr> else r) (rows d)\<rparr>"

text \<open>The mask \<open>(df[col].fillna(0) < lo) | (df[col].fillna(0) > hi)\<close>.\<close>

definition outside :: "rat \<Rightarrow> rat \<Rightarrow> string \<Rightarrow> row \<Rightarrow> bool" where
  "outside lo hi col r = (fillna0 (vals r col) < lo \<or> fillna0 (vals r col) > hi)"

definition validate_sti :: "thresholds \<Rightarrow> df \<Rightarrow> df" where
  "validate_sti th d =
     (let sti_col = ''Shot Time (s)  sec'' in
      if \<not> has_column d sti_col then d
      else assign_where d (\<lambda>r. fillna0 (vals r sti_col) < sti_error th) ''sti_flag'' (\<lambda>r. IntV 2))"

definition separation_columns :: "string list" where
  "separation_columns =
     [''SOURCE SSTG1 towed by SST String 1 - 2 Crossline Separation All Shots '',
      ''SOURCE SSTG2 towed by SST String 1 - 2 Crossline Separation All Shots '',
      ''SOURCE SSTG3 towed by SST String 1 - 2 Crossline Separation All Shots '']"

text \<open>Checks 2 and 3 of the source only write log messages.\<close>

definition validate_sub_array_separation :: "thresholds \<Rightarrow> df \<Rightarrow> df" where
  "validate_sub_array_separation th d =
     (let existing_sep_cols = filter (has_column d) separation_columns in
      if existing_sep_cols = [] then d
      else foldl (\<lambda>d col. assign_where d (outside (sub_array_sep_min th) (sub_array_sep_max th) col)
                                       ''sub_array_sep_flag'' (\<lambda>r. IntV 2))
                 d existing_sep_cols)"

definition cos_dual :: string where
  "cos_dual = ''Gunarray301-Gunarray302 Position m''"

definition cos_triple :: "string list" where
  "cos_triple = [''Gunarray301-Gunarray302 Position m'', ''Gunarray302-Gunarray303 Position m'']"

definition validate_cos_separation :: "thresholds \<Rightarrow> df \<Rightarrow> df" where
  "validate_cos_separation th d =
     (if has_column d cos_dual
      then assign_where d (outside (dual_cos_min th) (dual_cos_max th) cos_dual)
                        ''cos_sep_flag'' (\<lambda>r. IntV 2)
      else
        let triple_cols = filter (has_column d) cos_triple in
        foldl (\<lambda>d col. assign_where d (outside (triple_cos_min th) (triple_cos_max th) col)
                                    ''cos_sep_flag'' (\<lambda>r. IntV 2))
              d triple_cols)"

text \<open>The name test that \<open>validate_volume\<close> and \<open>generate_line_log_report\<close> use to
  find the gun-timing columns.\<close>

definition timing_name :: "string \<Rightarrow> bool" where
  "timing_name col =
     (startswith col ''String'' \<and> contains col ''Cluster'' \<and> contains col ''Gun''
      \<and> \<not> endswith col ''-Depth'' \<and> \<not> endswith col ''-Pressure'')"

definition validate_volume :: "thresholds \<Rightarrow> df \<Rightarrow> df" where
  "validate_volume th d =
     (if \<not> has_column d ''VOLUME'' then d
      else
        let timing_cols = filter timing_name (columns d);
            misfire_mask = (\<lambda>r. \<exists>col \<in> set timing_cols. abs (fillna0 (vals r col)) = 90);
            volume_condition = (\<lambda>r. fillna0 (vals r ''VOLUME'') \<noteq> volume_nominal th
                                      \<and> \<not> misfire_mask r)
        in assign_where d volume_condition ''volume_flag'' (\<lambda>r. IntV 2))"

text \<open>\<open>df[cols].mean(axis=1)\<close>: the mean of the non-null cells of the row, NaN when there
  is none.\<close>

definition row_mean :: "string list \<Rightarrow> row \<Rightarrow> cell" where
  "row_mean cols r =
     (let present = List.map_filter (\<lambda>col. cell_num (vals r col)) cols in
      if present = [] then Null else NumV (sum_list present / of_nat (length present)))"

definition gun_depth_name :: "string \<Rightarrow> bool" where
  "gun_depth_name col = (startswith col ''SSTGM1'' \<and> contains col ''DPT (P) Shot Event m'')"

definition validate_gun_depth :: "thresholds \<Rightarrow> df \<Rightarrow> df" where
  "validate_gun_depth th d =
     (let gun_depth_cols = [col \<leftarrow> columns d. gun_depth_name col] in
      if gun_depth_cols = [] then d
      else
        let d' = assign_column d ''average_gun_depth'' (row_mean gun_depth_cols)
        in assign_where d' (outside (gun_depth_min th) (gun_depth_max th) ''average_gun_depth'')
                        ''gun_depth_flag'' (\<lambda>r. IntV 2))"

definition point_code_pressure_mapping :: "(string \<times> string list) list" where
  "point_code_pressure_mapping =
     [(''A1'', [''SSTGM1P1_PRS (P) Shot Event  '', ''SSTGM1P2_PRS (P) Shot Event  '']),
      (''A2'', [''SSTGM1P3_PRS (P) Shot Event  '', ''SSTGM1P4_PRS (P) Shot Event  '']),
      (''A3'', [''SSTGM1P5_PRS (P) Shot Event  '', ''SSTGM1P6_PRS (P) Shot Event  ''])]"

definition pressure_name :: "string \<Rightarrow> bool" where
  "pressure_name col = (startswith col ''SSTGM1'' \<and> contains col ''PRS (P) Shot Event'')"

definition validate_gun_pressure :: "thresholds \<Rightarrow> df \<Rightarrow> df" where
  "validate_gun_pressure th d =
     (if has_column d ''point_code'' then
        foldl (\<lambda>d (code, pressure_cols).
                 let point_code_rows = (\<lambda>r. point_code r = Some code) in
                 if \<exists>r \<in> set (rows d). point_code_rows r then
                   foldl (\<lambda>d col. assign_where d
                             (\<lambda>r. point_code_rows r
                                   \<and> outside (gun_pressure_min th) (gun_pressure_max th) col r)
                             ''gun_pressure_flag'' (\<lambda>r. IntV 2))
                         d (filter (has_column d) pressure_cols)
                 else d)
              d point_code_pressure_mapping
      else
        let pressure_cols = [col \<leftarrow> columns d. pressure_name col] in
        foldl (\<lambda>d col. assign_where d (outside (gun_pressure_min th) (gun_pressure_max th) col)
                                    ''gun_pressure_flag'' (\<lambda>r. IntV 2))
              d pressure_cols)"

text \<open>
  \<open>re.match(r'^String_\d+-Cluster_\d+-Gun_\d+$', col)\<close>. Each \<open>\d+\<close> is followed by a
  character that is no digit, so the longest run of digits is the only candidate; \<open>$\<close>
  matches at the end of the string and before a final line feed.
\<close>

fun strip_prefix :: "string \<Rightarrow> string \<Rightarrow> string option" where
  "strip_prefix [] s = Some s"
| "strip_prefix (p # ps) [] = None"
| "strip_prefix (p # ps) (c # cs) = (if p = c then strip_prefix ps cs else None)"

definition digits_then :: "string \<Rightarrow> string option" where
  "digits_then s = (if takeWhile is_digit s = [] then None else Some (dropWhile is_digit s))"

definition match_timing_pattern :: "string \<Rightarrow> bool" where
  "match_timing_pattern col =
     (case Option.bind (strip_prefix ''String_'' col) digits_then of None \<Rightarrow> False
      | Some r1 \<Rightarrow>
     (case Option.bind (strip_prefix ''-Cluster_'' r1) digits_then of None \<Rightarrow> False
      | Some r2 \<Rightarrow>
     (case Option.bind (strip_prefix ''-Gun_'' r2) digits_then of None \<Rightarrow> False
      | Some r3 \<Rightarrow> r3 = [] \<or> r3 = [CHR 0x0A])))"

text \<open>The masks of the two writes of \<open>validate_gun_timing\<close> for a timing cell:
  \<open>!=\<close> is true on NaN, \<open><\<close> and \<open>>\<close> are false on it.\<close>

definition not_special :: "cell \<Rightarrow> bool" where
  "not_special c = (\<not> cell_eq c 63 \<and> \<not> cell_eq c 61 \<and> \<not> cell_eq c 90)"

definition beyond :: "rat \<Rightarrow> cell \<Rightarrow> bool" where
  "beyond limit c = (not_special c \<and> (cell_lt c (- limit) \<or> cell_gt c limit))"

text \<open>\<open>np.maximum(flag, 1)\<close> on one cell: NaN stays NaN.\<close>

definition maximum1 :: "cell \<Rightarrow> cell" where
  "maximum1 c = (case c of Null \<Rightarrow> Null | IntV i \<Rightarrow> IntV (max i 1) | NumV r \<Rightarrow> NumV (max r 1))"

text \<open>One iteration of \<open>for col in timing_cols\<close>: the warning write, then the error write.\<close>

definition timing_step :: "thresholds \<Rightarrow> df \<Rightarrow> string \<Rightarrow> df" where
  "timing_step th d col =
     (let d' = assign_where d (\<lambda>r. beyond (timing_warning th) (vals r col))
                            ''gun_timing_flag'' (\<lambda>r. maximum1 (vals r ''gun_timing_flag''))
      in assign_where d' (\<lambda>r. beyond (timing_error th) (vals r col))
                      ''gun_timing_flag'' (\<lambda>r. IntV 2))"

definition gun_timing_cols :: "df \<Rightarrow> string list" where
  "gun_timing_cols d =
     [col \<leftarrow> columns d. match_timing_pattern col \<and> \<not> endswith col ''-Depth''
                        \<and> \<not> endswith col ''-Pressure'']"

text \<open>Reading \<open>df['gun_timing_flag']\<close> in the first write raises \<open>KeyError\<close> when the
  flag column has not been created.\<close>

definition validate_gun_timing :: "thresholds \<Rightarrow> df \<Rightarrow> py_error + df" where
  "validate_gun_timing th d =
     (let timing_cols = gun_timing_cols d in
      if length timing_cols = 0 then Inr d
      else if \<not> has_column d ''gun_timing_flag'' then Inl KeyError
      else Inr (foldl (timing_step th) d timing_cols))"

definition validate_radial :: "thresholds \<Rightarrow> df \<Rightarrow> df" where
  "validate_radial th d =
     (let radial_col = ''Radial (m)'' in
      if \<not> has_column d radial_col then d
      else assign_where d (outside (- radial_limit th) (radial_limit th) radial_col)
                        ''repeatability_flag'' (\<lambda>r. IntV 1))"

definition sma_name :: "string \<Rightarrow> bool" where
  "sma_name col = (contains col ''Gunarray'' \<and> contains col ''SMA m'')"

definition validate_sma :: "thresholds \<Rightarrow> df \<Rightarrow> df" where
  "validate_sma th d =
     (let sma_cols = [col \<leftarrow> columns d. sma_name col] in
      if sma_cols = [] then d
      else foldl (\<lambda>d col. assign_where d (\<lambda>r. fillna0 (vals r col) > sma_limit th)
                                       ''sma_flag'' (\<lambda>r. IntV 2))
                 d sma_cols)"

text \<open>\<open>df[col] = df[col].astype(int)\<close>: a float is truncated towards zero, a NaN raises
  (\<open>IntCastingNaNError\<close>, a \<open>ValueError\<close>).\<close>

definition astype_int :: "cell \<Rightarrow> cell option" where
  "astype_int c = (case c of Null \<Rightarrow> None | IntV i \<Rightarrow> Some (IntV i)
                   | NumV r \<Rightarrow> Some (IntV (if r < 0 then - \<lfloor>- r\<rfloor> else \<lfloor>r\<rfloor>)))"

definition astype_int_column :: "df \<Rightarrow> string \<Rightarrow> py_error + df" where
  "astype_int_column d col =
     (if \<exists>r \<in> set (rows d). astype_int (vals r col) = None then Inl ValueError
      else Inr (assign_column d col (\<lambda>r. the (astype_int (vals r col)))))"

fun astype_int_columns :: "df \<Rightarrow> string list \<Rightarrow> py_error + df" where
  "astype_int_columns d [] = Inr d"
| "astype_int_columns d (col # cols) =
     (case astype_int_column d col of Inl e \<Rightarrow> Inl e | Inr d' \<Rightarrow> astype_int_columns d' cols)"

text \<open>
  \<open>validate_data\<close>. The flag columns are created with 0, the rules run in order, the flag
  columns are cast to integers, and the flagged shot points are logged: the log message
  reads \<open>flagged['shot_point']\<close>, which raises \<open>KeyError\<close> when a flag was raised and
  the Table has no \<open>shot_point\<close> column. Every exception is logged and raised again.
\<close>

definition validate_data :: "thresholds \<Rightarrow> df \<Rightarrow> py_error + df" where
  "validate_data th d =
     (let d = foldl (\<lambda>d col. assign_column d col (\<lambda>r. IntV 0)) d flag_columns;
          d = validate_sti th d;
          d = validate_sub_array_separation th d;
          d = validate_cos_separation th d;
          d = validate_volume th d;
          d = validate_gun_depth th d;
          d = validate_gun_pressure th d
      in case validate_gun_timing th d of
           Inl e \<Rightarrow> Inl e
         | Inr d \<Rightarrow>
             let d = validate_radial th d;
                 d = validate_sma th d
             in case astype_int_columns d flag_columns of
                  Inl e \<Rightarrow> Inl e
                | Inr d \<Rightarrow>
                    if (\<exists>flag_col \<in> set flag_columns. column_sum (rows d) flag_col > 0)
                       \<and> \<not> has_column d ''shot_point''
                    then Inl KeyError else Inr d)"

text \<open>
  What one iteration of the timing loop does to the flag cell of one row, given the row's
  cell in the timing column: the two masked writes in their order.
\<close>

definition timing_cell_step :: "thresholds \<Rightarrow> cell \<Rightarrow> cell \<Rightarrow> cell" where
  "timing_cell_step th flag c =
     (let flag = (if beyond (timing_warning th) c then maximum1 flag else flag)
      in if beyond (timing_error th) c then IntV 2 else flag)"

text \<open>
  When the expected physical columns of the rule behind a flag column are absent: the
  conditions under which the rule returns without a write.
\<close>

definition rule_columns_absent :: "df \<Rightarrow> string \<Rightarrow> bool" where
  "rule_columns_absent d flag =
     (if flag = ''sti_flag'' then \<not> has_column d ''Shot Time (s)  sec''
      else if flag = ''sub_array_sep_flag'' then (\<forall>col \<in> set separation_columns. \<not> has_column d col)
      else if flag = ''cos_sep_flag'' then (\<forall>col \<in> set cos_triple. \<not> has_column d col)
      else if flag = ''volume_flag'' then \<not> has_column d ''VOLUME''
      else if flag = ''gun_depth_flag'' then (\<forall>col \<in> set (columns d). \<not> gun_depth_name col)
      else if flag = ''gun_pressure_flag'' then (\<forall>col \<in> set (columns d). \<not> pressure_name col)
      else if flag = ''gun_timing_flag'' then (\<forall>col \<in> set (columns d). \<not> match_timing_pattern col)
      else if flag = ''repeatability_flag'' then \<not> has_column d ''Radial (m)''
      else if flag = ''sma_flag'' then (\<forall>col \<in> set (columns d). \<not> sma_name col)
      else False)"

text \<open>The columns the validator may add, and the invariant its rules keep, relative to the
  Table \<open>d0\<close> that \<open>validate_data\<close> received.\<close>

definition extra_columns :: "string list" where
  "extra_columns = ''average_gun_depth'' # flag_columns"

definition flag_ok :: "df \<Rightarrow> row \<Rightarrow> bool" where
  "flag_ok d0 r =
     (\<forall>flag \<in> set flag_columns.
        vals r flag \<in> {IntV 0, IntV 1, IntV 2}
        \<and> (rule_columns_absent d0 flag \<longrightarrow> vals r flag = IntV 0))"

definition frame_inv :: "df \<Rightarrow> df \<Rightarrow> bool" where
  "frame_inv d0 d =
     (set (columns d0) \<union> set flag_columns \<subseteq> set (columns d)
      \<and> set (columns d) \<subseteq> set (columns d0) \<union> set extra_columns
      \<and> length (rows d) = length (rows d0)
      \<and> (\<forall>r \<in> set (rows d). flag_ok d0 r))"

text \<open>
  A Table with two gun-timing columns and an initialised timing flag: the first row reads
  \<open>-2\<close> and \<open>0.5\<close>, the second reads the misfire code 90 and \<open>0.5\<close>.
\<close>

definition timing_row :: "int \<Rightarrow> cell \<Rightarrow> cell \<Rightarrow> row" where
  "timing_row sp g1 g2 =
     \<lparr>shot_point = Some sp, point_code = None,
      vals = (\<lambda>c. Null)(''String_1-Cluster_1-Gun_1'' := g1, ''String_1-Cluster_1-Gun_2'' := g2,
                         ''gun_timing_flag'' := IntV 0)\<rparr>"

definition timing_table :: df where
  "timing_table =
     \<lparr>columns = [''shot_point'', ''String_1-Cluster_1-Gun_1'', ''String_1-Cluster_1-Gun_2'',
                 ''gun_timing_flag''],
      rows = [timing_row 1001 (NumV (- 2)) (NumV (1 / 2)), timing_row 1003 (IntV 90) (NumV (1 / 2))]\<rparr>"

subsection \<open>Misfire and disabled-gun log entries: \<open>QCValidator.generate_line_log_report\<close>\<close>






text \<open>A Table with only a shot-point column and the radial offset: every other rule finds none
  of its physical columns.\<close>

definition radial_table :: df where
  "radial_table =
     \<lparr>columns = [''shot_point'', ''Radial (m)''],
      rows = [\<lparr>shot_point = Some 1001, point_code = None,
                vals = (\<lambda>c. Null)(''Radial (m)'' := NumV 11)\<rparr>,
              \<lparr>shot_point = Some 1003, point_code = None,
                vals = (\<lambda>c. Null)(''Radial (m)'' := NumV 5)\<rparr>]\<rparr>"

subsection \<open>Merge: the merge step of \<open>_qc_worker_function\<close> (PXGEONavQCTools.py)\<close>













section \<open>Theorems\<close>

subsection \<open>Range compaction\<close>






text \<open>
  C9. \<open>detect_range\<close> applied to the empty list returns the empty string: no
  \<open>Total 0 SP.\<close> banner, and no exception.
\<close>

theorem detect_range_empty: "detect_range [] = ''''"
  by (simp add: detect_range_def)



subsection \<open>Missing shot points\<close>

lemma py_range_step2:
  "py_range (a + 2) b 2 = [m \<leftarrow> [a + 1 .. b - 1]. (m - a) mod 2 = 0]"
proof (induction "nat (b - a)" arbitrary: a rule: less_induct)
  case less
  show ?case
  proof (cases "a + 2 < b")
    case True
    have "nat (b - (a + 2)) < nat (b - a)" using True by simp
    from less [OF this]
    have IH: "py_range (a + 2 + 2) b 2 = [m \<leftarrow> [a + 2 + 1 .. b - 1]. (m - (a + 2)) mod 2 = 0]" .
    have u: "[a + 1 .. b - 1] = (a + 1) # (a + 2) # [a + 2 + 1 .. b - 1]"
      using True by (simp add: upto_rec1)
    have c: "(m - (a + 2)) mod 2 = (m - a) mod 2" for m :: int by presburger
    show ?thesis
      using True IH by (subst py_range.simps) (simp add: u c)
  next
    case False
    then have "[m \<leftarrow> [a + 1 .. b - 1]. (m - a) mod 2 = 0] = []"
      by (auto simp: filter_empty_conv)
    then show ?thesis using False by (subst py_range.simps) simp
  qed
qed

lemma py_range_step1: "py_range (a + 1) b 1 = [a + 1 .. b - 1]"
proof (induction "nat (b - a)" arbitrary: a rule: less_induct)
  case less
  show ?case
  proof (cases "a + 1 < b")
    case True
    have "nat (b - (a + 1)) < nat (b - a)" using True by simp
    from less [OF this] have IH: "py_range (a + 1 + 1) b 1 = [a + 1 + 1 .. b - 1]" .
    show ?thesis
      using True IH by (subst py_range.simps) (simp add: upto_rec1)
  next
    case False
    then show ?thesis by (subst py_range.simps) simp
  qed
qed

lemma check_sp_loop_sorted:
  "sorted xs \<Longrightarrow>
   check_sp_loop xs =
     concat (map (\<lambda>p. if snd p - fst p > 2 then spec_missing_between 2 p else [])
                 (adjacent_pairs xs))"
proof (induction xs rule: check_sp_loop.induct)
  case (1 current "next" rest)
  then have "current \<le> next" by simp
  moreover have "check_sp_loop (next # rest) =
      concat (map (\<lambda>p. if snd p - fst p > 2 then spec_missing_between 2 p else [])
                  (adjacent_pairs (next # rest)))"
    using 1 by simp
  ultimately show ?case
    by (simp add: adjacent_pairs_def spec_missing_between_def py_range_step2 Let_def)
qed (simp_all add: adjacent_pairs_def)

lemma check_missing_loop_between:
  "check_missing_loop xs = concat (map (\<lambda>p. [fst p + 1 .. snd p - 1]) (adjacent_pairs xs))"
proof (induction xs rule: check_missing_loop.induct)
  case (1 current "next" rest)
  then show ?case
    by (simp add: adjacent_pairs_def py_range_step1)
qed (simp_all add: adjacent_pairs_def)

lemma sorted_shot_points_no_null:
  assumes "\<forall>r \<in> set (rows d). shot_point r \<noteq> None"
  shows "sorted_shot_points d = Inr (sort (non_null_shot_points d))"
  using assms by (auto simp: sorted_shot_points_def)

text \<open>
  C3 (as amended). On a Table with a shot-point column without nulls, \<open>check_sp\<close> (the
  detection the pipeline runs) returns, for the adjacent pairs of the sorted shot points in
  order, the values strictly between the pair that lie 2, 4, ... above its first value when
  the gap exceeds 2, and nothing when the gap is at most 2; shot points
  \<open>[1001,1003,1009,1011]\<close> give exactly \<open>[1005,1007]\<close>.
  \<open>QCValidator.check_missing_shot_points\<close> returns instead every integer strictly
  between each adjacent pair.
\<close>

theorem check_sp_missing:
  assumes "has_column d ''shot_point''"
      and "\<forall>r \<in> set (rows d). shot_point r \<noteq> None"
  shows "check_sp d =
           Inr (concat (map (\<lambda>p. if snd p - fst p > 2 then spec_missing_between 2 p else [])
                            (adjacent_pairs (sort (non_null_shot_points d)))))
         \<and> check_missing_shot_points d =
           Inr (concat (map (\<lambda>p. [fst p + 1 .. snd p - 1])
                            (adjacent_pairs (sort (non_null_shot_points d)))))
         \<and> check_sp (sp_table [1001, 1003, 1009, 1011]) = Inr [1005, 1007]"
proof -
  have "check_sp (sp_table [1001, 1003, 1009, 1011]) = Inr [1005, 1007]"
    by code_simp
  then show ?thesis
    using assms
    by (simp add: check_sp_def check_missing_shot_points_def sorted_shot_points_no_null
                  check_sp_loop_sorted check_missing_loop_between)
qed

theorem check_sp_missing_witness:
  "check_sp (sp_table [1011, 1001, 1004, 1008, 1008]) = Inr [1003, 1006, 1010]
   \<and> check_missing_shot_points (sp_table [1011, 1001, 1004, 1008, 1008])
       = Inr [1002, 1003, 1005, 1006, 1007, 1009, 1010]"
proof -
  have c: "has_column (sp_table [1011, 1001, 1004, 1008, 1008]) ''shot_point''"
    by (simp add: has_column_def sp_table_def)
  have n: "\<forall>r \<in> set (rows (sp_table [1011, 1001, 1004, 1008, 1008])). shot_point r \<noteq> None"
    by (simp add: sp_table_def sp_row_def)
  have s: "sort (non_null_shot_points (sp_table [1011, 1001, 1004, 1008, 1008]))
             = [1001, 1004, 1008, 1008, 1011]"
    by code_simp
  show ?thesis
    using check_sp_missing [OF c n]
    by (simp add: s adjacent_pairs_def spec_missing_between_def upto_rec1)
qed

theorem check_missing_shot_points_counterexample:
  "check_missing_shot_points (sp_table [1001, 1003, 1009, 1011])
     = Inr [1002, 1004, 1005, 1006, 1007, 1008, 1010]
   \<and> check_missing_shot_points (sp_table [1001, 1003, 1009, 1011]) \<noteq> Inr [1005, 1007]"
proof -
  have "check_missing_shot_points (sp_table [1001, 1003, 1009, 1011])
          = Inr [1002, 1004, 1005, 1006, 1007, 1008, 1010]"
    by code_simp
  then show ?thesis by simp
qed

subsection \<open>Shot-point order scan\<close>

text \<open>
  C10. \<open>detect_sp_sorting\<close> returns the empty issue list for every Table that lacks a
  \<open>shot_point\<close> column, has 2 or fewer rows, or has fewer than 3 non-null shot points.
\<close>

theorem detect_sp_sorting_small:
  assumes "\<not> has_column d ''shot_point'' \<or> len_df d \<le> 2 \<or> length (non_null_shot_points d) < 3"
  shows "detect_sp_sorting d = []"
  using assms by (auto simp: detect_sp_sorting_def Let_def)

theorem detect_sp_sorting_small_witness:
  "detect_sp_sorting (sp_table [1005, 1005]) = []
   \<and> detect_sp_sorting \<lparr>columns = [''Radial (m)''], rows = map sp_row [1001, 1001, 1003, 1003]\<rparr> = []
   \<and> detect_sp_sorting
        \<lparr>columns = [''shot_point''],
         rows = [sp_row 1009, \<lparr>shot_point = None, point_code = None, vals = (\<lambda>c. Null)\<rparr>, sp_row 1001]\<rparr>
       = []"
proof -
  have a: "len_df (sp_table [1005, 1005]) \<le> 2"
    by (simp add: len_df_def sp_table_def)
  have b: "\<not> has_column \<lparr>columns = [''Radial (m)''], rows = map sp_row [1001, 1001, 1003, 1003]\<rparr>
               ''shot_point''"
    by (simp add: has_column_def)
  have c: "length (non_null_shot_points
             \<lparr>columns = [''shot_point''],
              rows = [sp_row 1009, \<lparr>shot_point = None, point_code = None, vals = (\<lambda>c. Null)\<rparr>,
                      sp_row 1001]\<rparr>) < 3"
    by (simp add: non_null_shot_points_def sp_row_def)
  show ?thesis
    using detect_sp_sorting_small [of "sp_table [1005, 1005]"] a
          detect_sp_sorting_small [OF disjI1, OF b]
          detect_sp_sorting_small [OF disjI2, OF disjI2, OF c]
    by simp
qed

subsection \<open>Percentages\<close>

lemma calculate_percentages_overall_rows:
  assumes "calculate_percentages d total_sp (Some fgsp) (Some lgsp) = Inr p"
  shows "total_count (overall p) = sum_list (map (column_sum (rows d)) flag_columns)"
  using assms
  by (auto simp: calculate_percentages_def production_filter_def Let_def
           split: sum.splits if_splits)

text \<open>
  C2. The claim is that with both FGSP and LGSP given every returned statistic, the
  aggregate \<open>overall\<close> entry included, is computed from the production rows only. The
  per-flag entries are, but the \<open>overall\<close> counts are summed over the whole Table while
  the denominator is the production row count. On the two-row Table below with FGSP = 50
  and LGSP = 150, the only production row (shot point 100) carries no flag, the
  \<open>sti_flag\<close> entry is all zero, and yet \<open>overall\<close> reports a flag sum of 2, one
  error, and 200/9 percent; the claimed production-only flag sum is 0.
\<close>

theorem calculate_percentages_overall_whole_table:
  "(case calculate_percentages approach_error_table None (Some 50) (Some 150) of
      Inl e \<Rightarrow> False
    | Inr p \<Rightarrow> total_count (overall p) = 2 \<and> error_count (overall p) = 1
              \<and> total_pct (overall p) = Fin (200 / 9)
              \<and> map_of (per_flag p) ''sti_flag''
                  = Some \<lparr>total_pct = Fin 0, errors_pct = Fin 0, warnings_pct = Fin 0,
                          total_count = 0, error_count = 0, warning_count = 0\<rparr>)
   \<and> spec_overall_total_count approach_error_table 50 150 = 0"
  by code_simp

theorem calculate_percentages_overall_whole_table_witness:
  "total_count (overall (projr (calculate_percentages approach_error_table None (Some 50) (Some 150))))
     = 2
   \<and> spec_overall_total_count approach_error_table 50 150 = 0"
  using calculate_percentages_overall_whole_table
  by (cases "calculate_percentages approach_error_table None (Some 50) (Some 150)") simp_all

subsection \<open>Production filtering of log entries\<close>








subsection \<open>Gun timing\<close>

lemma rows_assign_where:
  "rows (assign_where d sel col v) =
     map (\<lambda>r. if sel r then r\<lparr>vals := (vals r)(col := v r)\<rparr> else r) (rows d)"
  by (simp add: assign_where_def)

lemma rows_timing_step:
  assumes "col \<noteq> ''gun_timing_flag''"
  shows "rows (timing_step th d col) =
           map (\<lambda>r. r\<lparr>vals := (vals r)(''gun_timing_flag'' :=
                          timing_cell_step th (vals r ''gun_timing_flag'') (vals r col))\<rparr>)
               (rows d)"
  using assms
  by (simp add: timing_step_def Let_def rows_assign_where timing_cell_step_def comp_def)

lemma timing_fold_row:
  assumes "''gun_timing_flag'' \<notin> set cols" and "i < length (rows d)"
  shows "length (rows (foldl (timing_step th) d cols)) = length (rows d)
       \<and> (\<forall>c. c \<noteq> ''gun_timing_flag'' \<longrightarrow>
             vals (rows (foldl (timing_step th) d cols) ! i) c = vals (rows d ! i) c)
       \<and> vals (rows (foldl (timing_step th) d cols) ! i) ''gun_timing_flag'' =
           foldl (timing_cell_step th) (vals (rows d ! i) ''gun_timing_flag'')
                 (map (vals (rows d ! i)) cols)"
  using assms
proof (induction cols arbitrary: d)
  case Nil
  show ?case by simp
next
  case (Cons col cols)
  have ne: "col \<noteq> ''gun_timing_flag''" using Cons.prems(1) by auto
  let ?d = "timing_step th d col"
  have len: "length (rows ?d) = length (rows d)"
    by (simp add: rows_timing_step [OF ne])
  have row: "rows ?d ! i = (rows d ! i)\<lparr>vals := (vals (rows d ! i))(''gun_timing_flag'' :=
               timing_cell_step th (vals (rows d ! i) ''gun_timing_flag'') (vals (rows d ! i) col))\<rparr>"
    using Cons.prems(2) by (simp add: rows_timing_step [OF ne])
  have "''gun_timing_flag'' \<notin> set cols" using Cons.prems(1) by simp
  moreover have "i < length (rows ?d)" using len Cons.prems(2) by simp
  ultimately have IH:
    "length (rows (foldl (timing_step th) ?d cols)) = length (rows ?d)
     \<and> (\<forall>c. c \<noteq> ''gun_timing_flag'' \<longrightarrow>
             vals (rows (foldl (timing_step th) ?d cols) ! i) c = vals (rows ?d ! i) c)
     \<and> vals (rows (foldl (timing_step th) ?d cols) ! i) ''gun_timing_flag'' =
           foldl (timing_cell_step th) (vals (rows ?d ! i) ''gun_timing_flag'')
                 (map (vals (rows ?d ! i)) cols)"
    by (rule Cons.IH)
  have same: "map (vals (rows ?d ! i)) cols = map (vals (rows d ! i)) cols"
    using \<open>''gun_timing_flag'' \<notin> set cols\<close> by (auto simp: row)
  show ?case
    using IH len ne by (simp add: same) (simp add: row)
qed

lemma gun_timing_cols_not_flag: "''gun_timing_flag'' \<notin> set (gun_timing_cols d)"
proof -
  have "\<not> match_timing_pattern ''gun_timing_flag''" by code_simp
  then show ?thesis by (auto simp: gun_timing_cols_def)
qed

lemma timing_cell_step_two: "cell_eq flag 2 \<Longrightarrow> cell_eq (timing_cell_step th flag c) 2"
  by (cases flag) (auto simp: timing_cell_step_def maximum1_def cell_eq_def cell_num_def Let_def)

lemma timing_cell_fold_two:
  "cell_eq flag 2 \<Longrightarrow> cell_eq (foldl (timing_cell_step th) flag cs) 2"
  by (induction cs arbitrary: flag) (simp_all add: timing_cell_step_two)

text \<open>
  C7. In the loop of \<open>validate_gun_timing\<close>, once the \<open>gun_timing_flag\<close> of a row is 2
  after the first \<open>k\<close> timing columns, it is 2 after any larger number \<open>j\<close> of them,
  and in the Table the function returns.
\<close>

theorem gun_timing_flag_monotone:
  assumes "i < length (rows d)" and "k \<le> j"
      and "cell_eq (vals (rows (foldl (timing_step th) d (take k (gun_timing_cols d))) ! i)
                         ''gun_timing_flag'') 2"
  shows "cell_eq (vals (rows (foldl (timing_step th) d (take j (gun_timing_cols d))) ! i)
                       ''gun_timing_flag'') 2
       \<and> (\<forall>d'. validate_gun_timing th d = Inr d' \<longrightarrow>
                 cell_eq (vals (rows d' ! i) ''gun_timing_flag'') 2)"
proof -
  let ?cols = "gun_timing_cols d"
  let ?flag = "\<lambda>n. vals (rows (foldl (timing_step th) d (take n ?cols)) ! i) ''gun_timing_flag''"
  let ?cells = "map (vals (rows d ! i)) ?cols"
  have nf: "''gun_timing_flag'' \<notin> set (take n ?cols)" for n
    using gun_timing_cols_not_flag [of d] by (meson in_set_takeD)
  have fl: "?flag n = foldl (timing_cell_step th) (vals (rows d ! i) ''gun_timing_flag'') (take n ?cells)"
    for n
    using timing_fold_row [OF nf assms(1), of th n] by (simp add: take_map)
  have later: "cell_eq (?flag n) 2" if "k \<le> n" for n
  proof -
    have "take n ?cells = take k ?cells @ drop k (take n ?cells)"
      using that by (metis append_take_drop_id min.absorb1 take_take)
    then have "foldl (timing_cell_step th) (vals (rows d ! i) ''gun_timing_flag'') (take n ?cells)
                 = foldl (timing_cell_step th)
                     (foldl (timing_cell_step th) (vals (rows d ! i) ''gun_timing_flag'') (take k ?cells))
                     (drop k (take n ?cells))"
      by (metis foldl_append)
    then have "?flag n = foldl (timing_cell_step th) (?flag k) (drop k (take n ?cells))"
      by (simp only: fl [of n] fl [of k])
    then show ?thesis
      using assms(3) by (simp add: timing_cell_fold_two del: drop_take)
  qed
  have "cell_eq (vals (rows d' ! i) ''gun_timing_flag'') 2"
    if "validate_gun_timing th d = Inr d'" for d'
  proof -
    have "d' = foldl (timing_step th) d (take (length ?cols) ?cols)"
      using that by (auto simp: validate_gun_timing_def Let_def split: if_splits)
    moreover have "cell_eq (?flag (max k (length ?cols))) 2" by (rule later) simp
    ultimately show ?thesis by simp
  qed
  then show ?thesis using later [OF assms(2)] by blast
qed
theorem gun_timing_flag_monotone_witness:
  "cell_eq (vals (rows (foldl (timing_step default_thresholds) timing_table
                          (take 1 (gun_timing_cols timing_table))) ! 0) ''gun_timing_flag'') 2
   \<and> cell_eq (vals (rows (foldl (timing_step default_thresholds) timing_table
                          (take 2 (gun_timing_cols timing_table))) ! 0) ''gun_timing_flag'') 2
   \<and> (\<exists>d'. validate_gun_timing default_thresholds timing_table = Inr d'
            \<and> cell_eq (vals (rows d' ! 0) ''gun_timing_flag'') 2)"
proof -
  have i: "0 < length (rows timing_table)" by (simp add: timing_table_def)
  have kj: "(1::nat) \<le> 2" by simp
  have h: "cell_eq (vals (rows (foldl (timing_step default_thresholds) timing_table
                          (take 1 (gun_timing_cols timing_table))) ! 0) ''gun_timing_flag'') 2"
    by code_simp
  have c: "gun_timing_cols timing_table = [''String_1-Cluster_1-Gun_1'', ''String_1-Cluster_1-Gun_2'']"
    by code_simp
  have hc: "has_column timing_table ''gun_timing_flag''"
    by code_simp
  have r: "\<exists>d'. validate_gun_timing default_thresholds timing_table = Inr d'"
    by (simp add: validate_gun_timing_def c hc)
  show ?thesis
    using gun_timing_flag_monotone [OF i kj h] h r by blast
qed

subsection \<open>Sentinel codes of the gun timing\<close>














subsection \<open>Totality of \<open>validate_data\<close> on missing columns\<close>

lemma foldl_invariant:
  "P d \<Longrightarrow> (\<And>d x. P d \<Longrightarrow> x \<in> set xs \<Longrightarrow> P (f d x)) \<Longrightarrow> P (foldl f d xs)"
  by (induction xs arbitrary: d) simp_all

lemma frame_inv_assign_column:
  assumes "frame_inv d0 d"
      and "col \<in> set (columns d) \<or> col \<in> set extra_columns"
      and "\<And>r. flag_ok d0 r \<Longrightarrow> flag_ok d0 (r\<lparr>vals := (vals r)(col := v r)\<rparr>)"
  shows "frame_inv d0 (assign_column d col v)"
  using assms by (auto simp: frame_inv_def assign_column_def add_column_def)

lemma frame_inv_assign_where:
  assumes "frame_inv d0 d"
      and "col \<in> set (columns d) \<or> col \<in> set extra_columns"
      and "\<And>r. flag_ok d0 r \<Longrightarrow> flag_ok d0 (r\<lparr>vals := (vals r)(col := v r)\<rparr>)"
  shows "frame_inv d0 (assign_where d sel col v)"
  using assms by (auto simp: frame_inv_def assign_where_def add_column_def)

lemma flag_ok_write:
  assumes "flag_ok d0 r" and "flag \<in> set flag_columns"
      and "\<not> rule_columns_absent d0 flag" and "v \<in> {IntV 0, IntV 1, IntV 2}"
  shows "flag_ok d0 (r\<lparr>vals := (vals r)(flag := v)\<rparr>)"
  using assms by (auto simp: flag_ok_def)

lemma frame_inv_flag_column:
  "frame_inv d0 d \<Longrightarrow> flag \<in> set flag_columns \<Longrightarrow> flag \<in> set (columns d)"
  by (auto simp: frame_inv_def)

lemma frame_inv_write_flag:
  assumes "frame_inv d0 d" and "flag \<in> set flag_columns"
      and "\<not> rule_columns_absent d0 flag"
      and "\<And>r. flag_ok d0 r \<Longrightarrow> v r \<in> {IntV 0, IntV 1, IntV 2}"
  shows "frame_inv d0 (assign_where d sel flag v)"
proof (rule frame_inv_assign_where [OF assms(1)])
  show "flag \<in> set (columns d) \<or> flag \<in> set extra_columns"
    using frame_inv_flag_column [OF assms(1,2)] by simp
  show "flag_ok d0 (r\<lparr>vals := (vals r)(flag := v r)\<rparr>)" if "flag_ok d0 r" for r
    using flag_ok_write [OF that assms(2,3)] assms(4) [OF that] by simp
qed

lemma column_back:
  "frame_inv d0 d \<Longrightarrow> c \<in> set (columns d) \<Longrightarrow> c \<notin> set extra_columns \<Longrightarrow> c \<in> set (columns d0)"
  by (auto simp: frame_inv_def)

lemma rows_assign_column:
  "rows (assign_column d col v) = map (\<lambda>r. r\<lparr>vals := (vals r)(col := v r)\<rparr>) (rows d)"
  by (simp add: assign_column_def)

lemma columns_assign_column:
  "set (columns (assign_column d col v)) = insert col (set (columns d))"
  by (auto simp: assign_column_def add_column_def)

lemma init_flags_rows:
  "rows (foldl (\<lambda>d col. assign_column d col (\<lambda>r. v)) d cs) =
     map (\<lambda>r. r\<lparr>vals := (\<lambda>c. if c \<in> set cs then v else vals r c)\<rparr>) (rows d)
   \<and> set (columns (foldl (\<lambda>d col. assign_column d col (\<lambda>r. v)) d cs)) = set (columns d) \<union> set cs"
proof (induction cs arbitrary: d)
  case Nil
  show ?case by simp
next
  case (Cons c cs)
  have g: "(r\<lparr>vals := (vals r)(c := v)\<rparr>)\<lparr>vals := \<lambda>c'. if c' \<in> set cs then v
                 else vals (r\<lparr>vals := (vals r)(c := v)\<rparr>) c'\<rparr>
           = r\<lparr>vals := \<lambda>c'. if c' \<in> set (c # cs) then v else vals r c'\<rparr>" for r :: row
    by (cases r) (auto simp: fun_eq_iff)
  have "rows (foldl (\<lambda>d col. assign_column d col (\<lambda>r. v)) (assign_column d c (\<lambda>r. v)) cs)
          = map (\<lambda>r. r\<lparr>vals := (\<lambda>c'. if c' \<in> set (c # cs) then v else vals r c')\<rparr>) (rows d)"
    unfolding Cons [of "assign_column d c (\<lambda>r. v)", THEN conjunct1] rows_assign_column map_map comp_def
    by (rule map_cong [OF refl]) (rule g)
  moreover have "set (columns (foldl (\<lambda>d col. assign_column d col (\<lambda>r. v)) (assign_column d c (\<lambda>r. v)) cs))
          = set (columns d) \<union> set (c # cs)"
    unfolding Cons [of "assign_column d c (\<lambda>r. v)", THEN conjunct2] columns_assign_column
    by auto
  ultimately show ?case by simp
qed

lemma frame_inv_init:
  "frame_inv d0 (foldl (\<lambda>d col. assign_column d col (\<lambda>r. IntV 0)) d0 flag_columns)"
  using init_flags_rows [of "IntV 0" d0 flag_columns]
  by (auto simp: frame_inv_def flag_ok_def extra_columns_def)

lemma extras_no_pattern:
  "\<forall>c \<in> set extra_columns. \<not> gun_depth_name c \<and> \<not> pressure_name c \<and> \<not> sma_name c
                                \<and> \<not> match_timing_pattern c"
  by code_simp

lemma named_not_extra:
  "''Shot Time (s)  sec'' \<notin> set extra_columns"
  "\<forall>c \<in> set separation_columns. c \<notin> set extra_columns"
  "\<forall>c \<in> set cos_triple. c \<notin> set extra_columns"
  "cos_dual \<in> set cos_triple"
  "''VOLUME'' \<notin> set extra_columns"
  "''Radial (m)'' \<notin> set extra_columns"
  "\<forall>(code, cols) \<in> set point_code_pressure_mapping. \<forall>c \<in> set cols. pressure_name c"
  by code_simp+

lemma flag_names:
  "''sti_flag'' \<in> set flag_columns" "''sub_array_sep_flag'' \<in> set flag_columns"
  "''cos_sep_flag'' \<in> set flag_columns" "''volume_flag'' \<in> set flag_columns"
  "''gun_depth_flag'' \<in> set flag_columns" "''gun_pressure_flag'' \<in> set flag_columns"
  "''gun_timing_flag'' \<in> set flag_columns" "''repeatability_flag'' \<in> set flag_columns"
  "''sma_flag'' \<in> set flag_columns" "''average_gun_depth'' \<notin> set flag_columns"
  "''average_gun_depth'' \<in> set extra_columns"
  by code_simp+

lemma frame_inv_sti:
  assumes "frame_inv d0 d"
  shows "frame_inv d0 (validate_sti th d)"
proof (cases "has_column d ''Shot Time (s)  sec''")
  case True
  then have "\<not> rule_columns_absent d0 ''sti_flag''"
    using column_back [OF assms] named_not_extra(1)
    by (auto simp: rule_columns_absent_def has_column_def)
  then show ?thesis
    using True by (simp add: validate_sti_def frame_inv_write_flag [OF assms flag_names(1)])
next
  case False
  then show ?thesis using assms by (simp add: validate_sti_def)
qed

lemma frame_inv_sub_array:
  assumes "frame_inv d0 d"
  shows "frame_inv d0 (validate_sub_array_separation th d)"
proof (cases "filter (has_column d) separation_columns = []")
  case True
  then show ?thesis using assms by (simp add: validate_sub_array_separation_def)
next
  case False
  then obtain c where "c \<in> set separation_columns" "has_column d c"
    by (auto simp: filter_empty_conv)
  then have na: "\<not> rule_columns_absent d0 ''sub_array_sep_flag''"
    using column_back [OF assms] named_not_extra(2)
    by (auto simp: rule_columns_absent_def has_column_def)
  have "frame_inv d0 (foldl (\<lambda>d col. assign_where d
           (outside (sub_array_sep_min th) (sub_array_sep_max th) col)
           ''sub_array_sep_flag'' (\<lambda>r. IntV 2)) d (filter (has_column d) separation_columns))"
    by (rule foldl_invariant [where P = "frame_inv d0", OF assms]) (simp add: frame_inv_write_flag [OF _ flag_names(2) na])
  then show ?thesis using False by (simp add: validate_sub_array_separation_def)
qed

lemma frame_inv_cos:
  assumes "frame_inv d0 d"
  shows "frame_inv d0 (validate_cos_separation th d)"
proof (cases "has_column d cos_dual")
  case True
  then have "\<not> rule_columns_absent d0 ''cos_sep_flag''"
    using column_back [OF assms] named_not_extra(3,4)
    by (auto simp: rule_columns_absent_def has_column_def)
  then show ?thesis
    using True by (simp add: validate_cos_separation_def frame_inv_write_flag [OF assms flag_names(3)])
next
  case False
  have "frame_inv d0 (foldl (\<lambda>d col. assign_where d
           (outside (triple_cos_min th) (triple_cos_max th) col)
           ''cos_sep_flag'' (\<lambda>r. IntV 2)) d (filter (has_column d) cos_triple))"
  proof (rule foldl_invariant [where P = "frame_inv d0", OF assms])
    fix d' x
    assume inv: "frame_inv d0 d'" and x: "x \<in> set (filter (has_column d) cos_triple)"
    then have "\<not> rule_columns_absent d0 ''cos_sep_flag''"
      using column_back [OF assms] named_not_extra(3)
      by (auto simp: rule_columns_absent_def has_column_def)
    then show "frame_inv d0 (assign_where d' (outside (triple_cos_min th) (triple_cos_max th) x)
                                         ''cos_sep_flag'' (\<lambda>r. IntV 2))"
      by (simp add: frame_inv_write_flag [OF inv flag_names(3)])
  qed
  then show ?thesis using False by (simp add: validate_cos_separation_def Let_def)
qed

lemma frame_inv_volume:
  assumes "frame_inv d0 d"
  shows "frame_inv d0 (validate_volume th d)"
proof (cases "has_column d ''VOLUME''")
  case True
  then have "\<not> rule_columns_absent d0 ''volume_flag''"
    using column_back [OF assms] named_not_extra(5)
    by (auto simp: rule_columns_absent_def has_column_def)
  then show ?thesis
    using True
    by (simp add: validate_volume_def Let_def frame_inv_write_flag [OF assms flag_names(4)])
next
  case False
  then show ?thesis using assms by (simp add: validate_volume_def)
qed

lemma frame_inv_gun_depth:
  assumes "frame_inv d0 d"
  shows "frame_inv d0 (validate_gun_depth th d)"
proof (cases "[col \<leftarrow> columns d. gun_depth_name col] = []")
  case True
  then show ?thesis using assms by (simp add: validate_gun_depth_def)
next
  case False
  then obtain c where "c \<in> set (columns d)" "gun_depth_name c"
    by (auto simp: filter_empty_conv)
  then have na: "\<not> rule_columns_absent d0 ''gun_depth_flag''"
    using column_back [OF assms, of c] extras_no_pattern
    by (auto simp: rule_columns_absent_def)
  have "flag_ok d0 (r\<lparr>vals := (vals r)(''average_gun_depth'' := v)\<rparr>)" if "flag_ok d0 r" for r v
    using that flag_names(10) by (auto simp: flag_ok_def)
  then have "frame_inv d0 (assign_column d ''average_gun_depth''
                              (row_mean [col \<leftarrow> columns d. gun_depth_name col]))"
    using flag_names(11) by (intro frame_inv_assign_column [OF assms]) simp_all
  then show ?thesis
    using False
    by (simp add: validate_gun_depth_def Let_def frame_inv_write_flag [OF _ flag_names(5) na])
qed

lemma frame_inv_gun_pressure:
  assumes "frame_inv d0 d"
  shows "frame_inv d0 (validate_gun_pressure th d)"
proof (cases "has_column d ''point_code''")
  case True
  have "frame_inv d0 (foldl (\<lambda>d (code, pressure_cols).
                 let point_code_rows = (\<lambda>r. point_code r = Some code) in
                 if \<exists>r \<in> set (rows d). point_code_rows r then
                   foldl (\<lambda>d col. assign_where d
                             (\<lambda>r. point_code_rows r
                                   \<and> outside (gun_pressure_min th) (gun_pressure_max th) col r)
                             ''gun_pressure_flag'' (\<lambda>r. IntV 2))
                         d (filter (has_column d) pressure_cols)
                 else d)
              d point_code_pressure_mapping)"
  proof (rule foldl_invariant [where P = "frame_inv d0", OF assms])
    fix d' x
    assume inv: "frame_inv d0 d'" and x: "x \<in> set point_code_pressure_mapping"
    obtain code pressure_cols where xx: "x = (code, pressure_cols)" by (cases x)
    have "frame_inv d0 (foldl (\<lambda>d col. assign_where d
                             (\<lambda>r. point_code r = Some code
                                   \<and> outside (gun_pressure_min th) (gun_pressure_max th) col r)
                             ''gun_pressure_flag'' (\<lambda>r. IntV 2))
                         d' (filter (has_column d') pressure_cols))"
    proof (rule foldl_invariant [where P = "frame_inv d0", OF inv])
      fix d'' c
      assume inv': "frame_inv d0 d''" and c: "c \<in> set (filter (has_column d') pressure_cols)"
      then have "pressure_name c" "c \<in> set (columns d')"
        using x xx named_not_extra(7) by (auto simp: has_column_def)
      then have "\<not> rule_columns_absent d0 ''gun_pressure_flag''"
        using column_back [OF inv, of c] extras_no_pattern
        by (auto simp: rule_columns_absent_def)
      then show "frame_inv d0 (assign_where d''
                   (\<lambda>r. point_code r = Some code
                         \<and> outside (gun_pressure_min th) (gun_pressure_max th) c r)
                   ''gun_pressure_flag'' (\<lambda>r. IntV 2))"
        by (simp add: frame_inv_write_flag [OF inv' flag_names(6)])
    qed
    then show "frame_inv d0 (case x of (code, pressure_cols) \<Rightarrow>
                 let point_code_rows = (\<lambda>r. point_code r = Some code) in
                 if \<exists>r \<in> set (rows d'). point_code_rows r then
                   foldl (\<lambda>d col. assign_where d
                             (\<lambda>r. point_code_rows r
                                   \<and> outside (gun_pressure_min th) (gun_pressure_max th) col r)
                             ''gun_pressure_flag'' (\<lambda>r. IntV 2))
                         d' (filter (has_column d') pressure_cols)
                 else d')"
      using inv by (simp add: xx Let_def)
  qed
  then show ?thesis using True by (simp add: validate_gun_pressure_def)
next
  case False
  have "frame_inv d0 (foldl (\<lambda>d col. assign_where d
           (outside (gun_pressure_min th) (gun_pressure_max th) col)
           ''gun_pressure_flag'' (\<lambda>r. IntV 2)) d [col \<leftarrow> columns d. pressure_name col])"
  proof (rule foldl_invariant [where P = "frame_inv d0", OF assms])
    fix d' c
    assume inv: "frame_inv d0 d'" and c: "c \<in> set [col \<leftarrow> columns d. pressure_name col]"
    then have "\<not> rule_columns_absent d0 ''gun_pressure_flag''"
      using column_back [OF assms, of c] extras_no_pattern
      by (auto simp: rule_columns_absent_def)
    then show "frame_inv d0 (assign_where d' (outside (gun_pressure_min th) (gun_pressure_max th) c)
                                         ''gun_pressure_flag'' (\<lambda>r. IntV 2))"
      by (simp add: frame_inv_write_flag [OF inv flag_names(6)])
  qed
  then show ?thesis using False by (simp add: validate_gun_pressure_def Let_def)
qed

lemma maximum1_flag: "c \<in> {IntV 0, IntV 1, IntV 2} \<Longrightarrow> maximum1 c \<in> {IntV 0, IntV 1, IntV 2}"
  by (auto simp: maximum1_def)

lemma frame_inv_gun_timing:
  assumes "frame_inv d0 d"
  shows "\<exists>d'. validate_gun_timing th d = Inr d' \<and> frame_inv d0 d'"
proof (cases "gun_timing_cols d = []")
  case True
  then show ?thesis using assms by (simp add: validate_gun_timing_def)
next
  case False
  then obtain c where "c \<in> set (columns d)" "match_timing_pattern c"
    by (auto simp: gun_timing_cols_def filter_empty_conv)
  then have na: "\<not> rule_columns_absent d0 ''gun_timing_flag''"
    using column_back [OF assms, of c] extras_no_pattern
    by (auto simp: rule_columns_absent_def)
  have hc: "has_column d ''gun_timing_flag''"
    using frame_inv_flag_column [OF assms flag_names(7)] by (simp add: has_column_def)
  have "frame_inv d0 (foldl (timing_step th) d (gun_timing_cols d))"
  proof (rule foldl_invariant [where P = "frame_inv d0", OF assms])
    fix d' col
    assume inv: "frame_inv d0 d'"
    have m: "maximum1 (vals r ''gun_timing_flag'') \<in> {IntV 0, IntV 1, IntV 2}"
      if "flag_ok d0 r" for r
      using that flag_names(7) by (intro maximum1_flag) (auto simp: flag_ok_def)
    have "frame_inv d0 (assign_where d' (\<lambda>r. beyond (timing_warning th) (vals r col))
                            ''gun_timing_flag'' (\<lambda>r. maximum1 (vals r ''gun_timing_flag'')))"
      using m by (intro frame_inv_write_flag [OF inv flag_names(7) na])
    then show "frame_inv d0 (timing_step th d' col)"
      by (simp add: timing_step_def Let_def frame_inv_write_flag [OF _ flag_names(7) na])
  qed
  then show ?thesis
    using False hc by (simp add: validate_gun_timing_def)
qed

lemma frame_inv_radial:
  assumes "frame_inv d0 d"
  shows "frame_inv d0 (validate_radial th d)"
proof (cases "has_column d ''Radial (m)''")
  case True
  then have "\<not> rule_columns_absent d0 ''repeatability_flag''"
    using column_back [OF assms] named_not_extra(6)
    by (auto simp: rule_columns_absent_def has_column_def)
  then show ?thesis
    using True by (simp add: validate_radial_def frame_inv_write_flag [OF assms flag_names(8)])
next
  case False
  then show ?thesis using assms by (simp add: validate_radial_def)
qed

lemma frame_inv_sma:
  assumes "frame_inv d0 d"
  shows "frame_inv d0 (validate_sma th d)"
proof (cases "[col \<leftarrow> columns d. sma_name col] = []")
  case True
  then show ?thesis using assms by (simp add: validate_sma_def)
next
  case False
  then obtain c where "c \<in> set (columns d)" "sma_name c"
    by (auto simp: filter_empty_conv)
  then have na: "\<not> rule_columns_absent d0 ''sma_flag''"
    using column_back [OF assms, of c] extras_no_pattern
    by (auto simp: rule_columns_absent_def)
  have "frame_inv d0 (foldl (\<lambda>d col. assign_where d (\<lambda>r. fillna0 (vals r col) > sma_limit th)
                                       ''sma_flag'' (\<lambda>r. IntV 2))
                 d [col \<leftarrow> columns d. sma_name col])"
    by (rule foldl_invariant [where P = "frame_inv d0", OF assms]) (simp add: frame_inv_write_flag [OF _ flag_names(9) na])
  then show ?thesis using False by (simp add: validate_sma_def)
qed

lemma frame_inv_astype:
  assumes "frame_inv d0 d" and "set cols \<subseteq> set flag_columns"
  shows "\<exists>d'. astype_int_columns d cols = Inr d' \<and> frame_inv d0 d'"
  using assms
proof (induction cols arbitrary: d)
  case Nil
  then show ?case by simp
next
  case (Cons col cols)
  have col: "col \<in> set flag_columns" using Cons.prems(2) by simp
  have cell: "vals r col \<in> {IntV 0, IntV 1, IntV 2}" if "flag_ok d0 r" for r
    using that col by (auto simp: flag_ok_def)
  have ok: "\<not> (\<exists>r \<in> set (rows d). astype_int (vals r col) = None)"
    using Cons.prems(1) cell by (fastforce simp: frame_inv_def astype_int_def)
  have same: "flag_ok d0 (r\<lparr>vals := (vals r)(col := the (astype_int (vals r col)))\<rparr>)"
    if "flag_ok d0 r" for r
  proof -
    have "the (astype_int (vals r col)) = vals r col"
      using cell [OF that] by (auto simp: astype_int_def)
    then show ?thesis using that by simp
  qed
  have "frame_inv d0 (assign_column d col (\<lambda>r. the (astype_int (vals r col))))"
    using frame_inv_flag_column [OF Cons.prems(1) col] same
    by (intro frame_inv_assign_column [OF Cons.prems(1)]) simp_all
  from Cons.IH [OF this] Cons.prems(2) ok show ?case
    by (simp add: astype_int_column_def)
qed

lemma validate_data_frame_inv:
  assumes "has_column d ''shot_point''"
  shows "\<exists>d'. validate_data th d = Inr d' \<and> frame_inv d d'"
proof -
  define d1 where "d1 = validate_gun_pressure th (validate_gun_depth th (validate_volume th
            (validate_cos_separation th (validate_sub_array_separation th (validate_sti th
            (foldl (\<lambda>d col. assign_column d col (\<lambda>r. IntV 0)) d flag_columns))))))"
  have "frame_inv d d1"
    unfolding d1_def
    by (intro frame_inv_gun_pressure frame_inv_gun_depth frame_inv_volume frame_inv_cos
              frame_inv_sub_array frame_inv_sti frame_inv_init)
  then obtain d2 where d2: "validate_gun_timing th d1 = Inr d2" and i2: "frame_inv d d2"
    using frame_inv_gun_timing by blast
  have "frame_inv d (validate_sma th (validate_radial th d2))"
    by (intro frame_inv_sma frame_inv_radial i2)
  then obtain d3 where
    d3: "astype_int_columns (validate_sma th (validate_radial th d2)) flag_columns = Inr d3"
    and i3: "frame_inv d d3"
    using frame_inv_astype by blast
  have "has_column d3 ''shot_point''"
    using assms i3 by (auto simp: frame_inv_def has_column_def)
  then have "validate_data th d = Inr d3"
    using d2 d3 by (simp add: validate_data_def Let_def d1_def [symmetric])
  then show ?thesis using i3 by blast
qed
text \<open>
  C8. For every Table with a \<open>shot_point\<close> column, whatever subset of the physical
  measurement columns it has, \<open>validate_data\<close> does not raise: it returns a Table with the
  same rows in which all nine flag columns exist, every flag cell is one of the integers 0,
  1, 2, and the flag of every rule whose physical columns are absent is 0 in every row.
\<close>

theorem validate_data_total:
  assumes "has_column d ''shot_point''"
  shows "\<exists>d'. validate_data th d = Inr d'
           \<and> length (rows d') = length (rows d)
           \<and> (\<forall>flag \<in> set flag_columns.
                 has_column d' flag
                 \<and> (\<forall>r \<in> set (rows d').
                       vals r flag \<in> {IntV 0, IntV 1, IntV 2}
                       \<and> (rule_columns_absent d flag \<longrightarrow> vals r flag = IntV 0)))"
proof -
  from validate_data_frame_inv [OF assms] obtain d' where
    res: "validate_data th d = Inr d'" and inv: "frame_inv d d'" by blast
  have "length (rows d') = length (rows d)"
    using inv by (simp add: frame_inv_def)
  moreover have "has_column d' flag" if "flag \<in> set flag_columns" for flag
    using frame_inv_flag_column [OF inv that] by (simp add: has_column_def)
  moreover have "vals r flag \<in> {IntV 0, IntV 1, IntV 2}
                 \<and> (rule_columns_absent d flag \<longrightarrow> vals r flag = IntV 0)"
    if "flag \<in> set flag_columns" and "r \<in> set (rows d')" for flag r
    using inv that by (auto simp: frame_inv_def flag_ok_def)
  ultimately show ?thesis using res by blast
qed

theorem validate_data_total_witness:
  "\<exists>d'. validate_data default_thresholds radial_table = Inr d'
        \<and> length (rows d') = 2
        \<and> (\<forall>r \<in> set (rows d'). vals r ''sti_flag'' = IntV 0 \<and> vals r ''gun_timing_flag'' = IntV 0
                                  \<and> vals r ''sma_flag'' = IntV 0)
        \<and> map (\<lambda>r. vals r ''repeatability_flag'') (rows d') = [IntV 1, IntV 0]"
proof -
  have sp: "has_column radial_table ''shot_point''" by code_simp
  from validate_data_total [OF sp, of default_thresholds] obtain d' where
    res: "validate_data default_thresholds radial_table = Inr d'"
    and len: "length (rows d') = length (rows radial_table)"
    and flags: "\<And>flag r. flag \<in> set flag_columns \<Longrightarrow> r \<in> set (rows d') \<Longrightarrow>
                  rule_columns_absent radial_table flag \<Longrightarrow> vals r flag = IntV 0"
    by blast
  have a1: "rule_columns_absent radial_table ''sti_flag''" by code_simp
  have a2: "rule_columns_absent radial_table ''gun_timing_flag''" by code_simp
  have a3: "rule_columns_absent radial_table ''sma_flag''" by code_simp
  have f: "''sti_flag'' \<in> set flag_columns" "''gun_timing_flag'' \<in> set flag_columns"
          "''sma_flag'' \<in> set flag_columns"
    by code_simp+
  have ev: "(case validate_data default_thresholds radial_table of
               Inl e \<Rightarrow> False
             | Inr d \<Rightarrow> map (\<lambda>r. vals r ''repeatability_flag'') (rows d) = [IntV 1, IntV 0])"
    by code_simp
  have "map (\<lambda>r. vals r ''repeatability_flag'') (rows d') = [IntV 1, IntV 0]"
    using ev by (simp add: res)
  moreover have "length (rows d') = 2"
    using len by (simp add: radial_table_def)
  ultimately show ?thesis
    using res flags [OF f(1) _ a1] flags [OF f(2) _ a2] flags [OF f(3) _ a3]
    by (intro exI [of _ d']) simp
qed

subsection \<open>Merge\<close>


































end
